theory Spec2Isabelle
  imports Main "HOL-Library.AList" "HOL-Library.List_Lexorder" "HOL-Library.Product_Lexorder"
    "HOL-Library.Multiset"
begin

section \<open>Values, documents and the document store\<close>

text \<open>
  A JavaScript string is modelled as the list of its code points; with
  \<open>HOL-Library.List_Lexorder\<close> the order on such lists is the lexicographic one, which is
  the order the document store compares string fields by. Field names are the ASCII
  literals of the source and stay Isabelle strings.
\<close>

type_synonym jstring = "nat list"

definition js :: "string \<Rightarrow> jstring" where
  "js s = map of_char s"

text \<open>
  The field values the repository writes and reads: strings, timestamps, booleans and
  null. Every write in the repository stores flat fields only
  (\<open>UserProfileSetup.handleSubmit\<close>), so there is no nested map value.
\<close>

datatype fval = FNull | FBoolean bool | FTimestamp int | FString jstring

type_synonym doc = "string \<rightharpoonup> fval"

text \<open>
  A collection is the list of its documents, each with its id. \<open>db\<close> of
  \<open>src/firebase.js\<close> holds the collection \<open>userProfiles\<close> and, for every chat id, the
  subcollection \<open>chats/{chatId}/messages\<close>.
\<close>

type_synonym collection = "(jstring \<times> doc) list"

record firestore =
  userProfiles :: collection
  messages :: "jstring \<Rightarrow> collection"

text \<open>
  How a call of the data-access layer fails: \<open>InvalidArgument\<close> is the \<open>Error\<close> its own
  guard throws; \<open>StoreFailure\<close> is whatever a call into the document store throws, be it
  \<open>doc\<close> refusing a path that is not a document reference or an awaited write that is
  rejected.
\<close>

datatype error = InvalidArgument | StoreFailure

text \<open>The outcome of awaiting a promise: it is rejected, or fulfilled with a value.\<close>

datatype 'a reply = Rejected | Fulfilled 'a

text \<open>
  Modelled from the spec: the document store's point read and merge-upsert
  (\<open>getDoc\<close>, \<open>setDoc\<close> with \<open>{ merge: true }\<close> of the Firestore SDK, which is not
  part of the repository). A point read returns the document stored under the id or
  nothing. A merge-upsert creates the document from exactly the supplied fields when
  none is stored; otherwise the supplied fields overwrite the same-named stored fields
  and every other stored field is kept.
\<close>

definition getDoc :: "collection \<Rightarrow> jstring \<Rightarrow> doc option" where
  "getDoc c did = map_of c did"

definition setDoc_merge :: "collection \<Rightarrow> jstring \<Rightarrow> doc \<Rightarrow> collection" where
  "setDoc_merge c did data =
     AList.update did (case map_of c did of None \<Rightarrow> data | Some old \<Rightarrow> old ++ data) c"

subsection \<open>\<open>src/api/firebaseService.js\<close>: profile operations\<close>

text \<open>
  \<open>fetchUserProfile(uid)\<close>: \<open>if (!uid) return null\<close>, then the awaited point read; a
  rejected read rejects the call. The read is a parameter, so that both a store that
  answers (\<open>responsive\<close>) and one that fails can be supplied. The object returned for a
  stored document is \<open>{ id: profileSnap.id, ...profileSnap.data() }\<close>.
\<close>

definition with_id :: "jstring \<Rightarrow> doc \<Rightarrow> doc" where
  "with_id did data = [''id'' \<mapsto> FString did] ++ data"

definition fetchUserProfile :: "(jstring \<Rightarrow> doc option reply) \<Rightarrow> jstring \<Rightarrow> doc option reply" where
  "fetchUserProfile read uid =
     (if uid = [] then Fulfilled None
      else case read uid of
             Rejected \<Rightarrow> Rejected
           | Fulfilled None \<Rightarrow> Fulfilled None
           | Fulfilled (Some data) \<Rightarrow> Fulfilled (Some (with_id uid data)))"

definition responsive :: "firestore \<Rightarrow> jstring \<Rightarrow> doc option reply" where
  "responsive db uid = Fulfilled (getDoc (userProfiles db) uid)"

text \<open>
  \<open>setUserProfile(uid, profileData)\<close>: \<open>if (!uid || !profileData) throw new Error(...)\<close>,
  then \<open>doc(db, 'userProfiles', uid)\<close> and the awaited merge-upsert, neither inside a
  \<open>try\<close>. \<open>!uid\<close> holds of the empty string; \<open>profileData\<close> is \<open>None\<close> for \<open>undefined\<close>
  or \<open>null\<close>, and \<open>!profileData\<close> holds of nothing else: an object, the empty one
  included, is truthy. Whether the store takes the write is the parameter \<open>accepts\<close>:
  it is false when \<open>doc\<close> throws (a uid that is not a document id, such as one with a
  slash) or the write is rejected, and the call then fails with that error; otherwise
  the merge-upsert is done.
\<close>

definition setUserProfile ::
  "(jstring \<Rightarrow> doc \<Rightarrow> bool) \<Rightarrow> firestore \<Rightarrow> jstring \<Rightarrow> doc option \<Rightarrow> error + firestore" where
  "setUserProfile accepts db uid profileData =
     (if uid = [] \<or> profileData = None then Inl InvalidArgument
      else case profileData of
             None \<Rightarrow> Inl InvalidArgument
           | Some data \<Rightarrow>
               if accepts uid data
               then Inr (db\<lparr>userProfiles := setDoc_merge (userProfiles db) uid data\<rparr>)
               else Inl StoreFailure)"

text \<open>The document stored for a user, as a later read sees it.\<close>

definition stored :: "firestore \<Rightarrow> jstring \<Rightarrow> doc option" where
  "stored db uid = getDoc (userProfiles db) uid"

section \<open>The document store's queries\<close>

text \<open>
  Modelled from the spec: the document store's range queries with ordering and limit
  (\<open>query\<close>, \<open>where\<close>, \<open>orderBy\<close>, \<open>limit\<close> and \<open>getDocs\<close> of the Firestore SDK,
  which is not part of the repository). Values of different types are ordered by type
  (null, boolean, timestamp, string) and within a type by value, strings
  lexicographically. A \<open>where\<close> with an inequality keeps the documents that have the
  field with a value of the bound's type standing in that relation to the bound; an
  \<open>orderBy\<close> keeps the documents that have the field. The result is in ascending order
  of the \<open>orderBy\<close> field or, when there is none, of the field of the first inequality,
  then of the document id; \<open>limit n\<close> keeps its first \<open>n\<close> documents.
\<close>

datatype opr = GreaterEq | LessEq | Greater

datatype constraint = Where string opr fval | OrderBy string | Limit nat

fun fval_key :: "fval \<Rightarrow> nat \<times> int \<times> jstring" where
  "fval_key FNull = (0, 0, [])"
| "fval_key (FBoolean b) = (1, (if b then 1 else 0), [])"
| "fval_key (FTimestamp t) = (2, t, [])"
| "fval_key (FString s) = (3, 0, s)"

definition compares :: "opr \<Rightarrow> fval \<Rightarrow> fval \<Rightarrow> bool" where
  "compares opn v bound =
     (fst (fval_key v) = fst (fval_key bound) \<and>
      (case opn of
         GreaterEq \<Rightarrow> fval_key bound \<le> fval_key v
       | LessEq \<Rightarrow> fval_key v \<le> fval_key bound
       | Greater \<Rightarrow> fval_key bound < fval_key v))"

fun satisfies :: "doc \<Rightarrow> constraint \<Rightarrow> bool" where
  "satisfies d (Where f opn bound) = (case d f of None \<Rightarrow> False | Some v \<Rightarrow> compares opn v bound)"
| "satisfies d (OrderBy f) = (d f \<noteq> None)"
| "satisfies d (Limit n) = True"

fun orderBy_fields :: "constraint list \<Rightarrow> string list" where
  "orderBy_fields [] = []"
| "orderBy_fields (OrderBy f # cs) = f # orderBy_fields cs"
| "orderBy_fields (_ # cs) = orderBy_fields cs"

fun where_fields :: "constraint list \<Rightarrow> string list" where
  "where_fields [] = []"
| "where_fields (Where f opn bound # cs) = f # where_fields cs"
| "where_fields (_ # cs) = where_fields cs"

fun limit_of :: "constraint list \<Rightarrow> nat option" where
  "limit_of [] = None"
| "limit_of (Limit n # cs) = Some n"
| "limit_of (_ # cs) = limit_of cs"

definition order_field :: "constraint list \<Rightarrow> string option" where
  "order_field cs =
     (case orderBy_fields cs of
        f # _ \<Rightarrow> Some f
      | [] \<Rightarrow> (case where_fields cs of f # _ \<Rightarrow> Some f | [] \<Rightarrow> None))"

definition sort_value :: "string option \<Rightarrow> doc \<Rightarrow> nat \<times> int \<times> jstring" where
  "sort_value fo d =
     (case fo of
        None \<Rightarrow> (0, 0, [])
      | Some f \<Rightarrow> (case d f of None \<Rightarrow> (0, 0, []) | Some v \<Rightarrow> fval_key v))"

definition getDocs :: "collection \<Rightarrow> constraint list \<Rightarrow> collection" where
  "getDocs c cs =
     (let matching = filter (\<lambda>(did, d). list_all (satisfies d) cs) c;
          ordered = sort_key (\<lambda>(did, d). (sort_value (order_field cs) d, did)) matching
      in case limit_of cs of None \<Rightarrow> ordered | Some n \<Rightarrow> take n ordered)"

subsection \<open>\<open>src/api/firebaseService.js\<close>: search and message count\<close>

text \<open>
  \<open>String.prototype.trim\<close> removes the leading and trailing WhiteSpace and LineTerminator
  code points of ECMAScript.
\<close>

definition isWhiteSpace :: "nat \<Rightarrow> bool" where
  "isWhiteSpace c \<longleftrightarrow>
     c \<in> {0x9, 0xA, 0xB, 0xC, 0xD, 0x20, 0xA0, 0x1680, 0x2028, 0x2029, 0x202F, 0x205F,
          0x3000, 0xFEFF}
     \<or> (0x2000 \<le> c \<and> c \<le> 0x200A)"

definition trim :: "jstring \<Rightarrow> jstring" where
  "trim s = rev (dropWhile isWhiteSpace (rev (dropWhile isWhiteSpace s)))"

text \<open>
  \<open>searchUserProfiles(queryText)\<close>. \<open>String.prototype.toLowerCase\<close> is the built-in of
  the language and is taken as the parameter \<open>toLowerCase\<close>. The upper bound
  is \<open>lowercasedQuery\<close> followed by the code point U+F8FF, compared with \<open><=\<close>; each result is
  \<open>{ id: d.id, ...d.data() }\<close>.
\<close>

definition searchUserProfiles :: "(jstring \<Rightarrow> jstring) \<Rightarrow> firestore \<Rightarrow> jstring \<Rightarrow> doc list" where
  "searchUserProfiles toLowerCase db queryText =
     (if queryText = [] \<or> trim queryText = [] then []
      else let lowercasedQuery = toLowerCase queryText
           in map (\<lambda>(did, d). with_id did d)
                (getDocs (userProfiles db)
                   [Where ''lowercaseDisplayName'' GreaterEq (FString lowercasedQuery),
                    Where ''lowercaseDisplayName'' LessEq (FString (lowercasedQuery @ [0xF8FF])),
                    Limit 5]))"

text \<open>
  \<open>fetchChatMessagesCount(chatId, lastReadTimestamp = null)\<close>: \<open>lastReadTimestamp\<close> is a
  \<open>Date\<close>, which is truthy, or \<open>null\<close>.
\<close>

definition fetchChatMessagesCount :: "firestore \<Rightarrow> jstring \<Rightarrow> int option \<Rightarrow> nat" where
  "fetchChatMessagesCount db chatId lastReadTimestamp =
     length (getDocs (messages db chatId)
       (case lastReadTimestamp of
          Some t \<Rightarrow> [OrderBy ''createdAt'', Where ''createdAt'' Greater (FTimestamp t)]
        | None \<Rightarrow> []))"

text \<open>
  The search key of a profile document, and whether it lies in the closed range from
  \<open>lo\<close> to \<open>lo\<close> followed by U+F8FF.
\<close>

definition lowercaseName :: "doc \<Rightarrow> jstring" where
  "lowercaseName d = (case d ''lowercaseDisplayName'' of Some (FString n) \<Rightarrow> n | _ \<Rightarrow> [])"

definition inClosedRange :: "jstring \<Rightarrow> doc \<Rightarrow> bool" where
  "inClosedRange lo d =
     (case d ''lowercaseDisplayName'' of
        Some (FString n) \<Rightarrow> lo \<le> n \<and> n \<le> lo @ [0xF8FF]
      | _ \<Rightarrow> False)"

text \<open>The key the store orders the result of the search query by.\<close>

definition searchKey :: "jstring \<times> doc \<Rightarrow> (nat \<times> int \<times> jstring) \<times> jstring" where
  "searchKey = (\<lambda>(did, d). (sort_value (Some ''lowercaseDisplayName'') d, did))"

text \<open>Whether a message document was created strictly after \<open>t\<close>.\<close>

definition createdAfter :: "int \<Rightarrow> doc \<Rightarrow> bool" where
  "createdAfter t m = (case m ''createdAt'' of Some (FTimestamp t') \<Rightarrow> t < t' | _ \<Rightarrow> False)"

section \<open>\<open>src/contexts/UserContext.js\<close>: the session sequencer\<close>

text \<open>
  The record the auth provider delivers carries at least \<open>uid\<close> and \<open>email\<close>. The
  Session value is \<open>{ ...authUser, displayName: ..., profileComplete: ... }\<close>;
  \<open>displayName\<close> is \<open>None\<close> when it is \<open>undefined\<close> (a profile document without that
  field).
\<close>

record authUser =
  uid :: jstring
  email :: jstring

record session = authUser +
  displayName :: "fval option"
  profileComplete :: bool

text \<open>
  The state of \<open>UserProvider\<close>: the two \<open>useState\<close> cells, \<open>window.location.pathname\<close>
  (which \<open>navigate\<close> sets), and the invocations of the \<open>onAuthStateChanged\<close> callback
  that are suspended at \<open>await fetchUserProfile(authUser.uid)\<close>, each with the
  \<open>authUser\<close> it closed over, oldest first.
\<close>

record ctx =
  user :: "session option"
  loadingUser :: bool
  pathname :: string
  pending :: "authUser list"

definition initial :: "string \<Rightarrow> ctx" where
  "initial path = \<lparr>user = None, loadingUser = True, pathname = path, pending = []\<rparr>"

text \<open>
  What happens to the provider: the auth provider calls the callback with a record or
  with \<open>null\<close>, or the lookup awaited by the suspended invocation at position \<open>i\<close>
  settles. JavaScript runs each of these to completion before the next.
\<close>

datatype event = AuthStateChanged "authUser option" | LookupSettled nat "doc option reply"

text \<open>
  The rest of the callback after the \<open>await\<close>. A rejected lookup throws at the
  \<open>await\<close>; the callback has no \<open>try\<close>, so nothing after it runs, neither a
  \<open>setUser\<close> nor \<open>setLoadingUser(false)\<close>.
\<close>

fun resume :: "ctx \<Rightarrow> authUser \<Rightarrow> doc option reply \<Rightarrow> ctx" where
  "resume c a Rejected = c"
| "resume c a (Fulfilled (Some profile)) =
     c\<lparr>user := Some \<lparr>uid = uid a, email = email a,
                      displayName = profile ''displayName'', profileComplete = True\<rparr>,
       loadingUser := False\<rparr>"
| "resume c a (Fulfilled None) =
     c\<lparr>user := Some \<lparr>uid = uid a, email = email a,
                      displayName = Some (FString (email a)), profileComplete = False\<rparr>,
       pathname := (if pathname c \<noteq> ''/setup-profile'' then ''/setup-profile'' else pathname c),
       loadingUser := False\<rparr>"

fun step :: "ctx \<Rightarrow> event \<Rightarrow> ctx" where
  "step c (AuthStateChanged (Some a)) = c\<lparr>pending := pending c @ [a]\<rparr>"
| "step c (AuthStateChanged None) = c\<lparr>user := None, loadingUser := False\<rparr>"
| "step c (LookupSettled i r) =
     (if i < length (pending c)
      then resume (c\<lparr>pending := take i (pending c) @ drop (Suc i) (pending c)\<rparr>) (pending c ! i) r
      else c)"

definition run :: "event list \<Rightarrow> ctx \<Rightarrow> ctx" where
  "run evs c = foldl step c evs"

text \<open>
  The states of the spec, read off the provider's state: a lookup in flight is
  AuthenticatedPending; otherwise the loading flag still set is Unknown, no user is
  Anonymous, and a user is AuthenticatedComplete or AuthenticatedIncomplete by its
  \<open>profileComplete\<close>.
\<close>

datatype seq_state =
  Unknown | Anonymous | AuthenticatedPending | AuthenticatedComplete | AuthenticatedIncomplete

definition state_of :: "ctx \<Rightarrow> seq_state" where
  "state_of c =
     (if pending c \<noteq> [] then AuthenticatedPending
      else if loadingUser c then Unknown
      else case user c of
             None \<Rightarrow> Anonymous
           | Some s \<Rightarrow> if profileComplete s then AuthenticatedComplete else AuthenticatedIncomplete)"

section \<open>\<open>src/components/common/PrivateRoute.js\<close>: the route gate\<close>

text \<open>
  \<open>PrivateRoute\<close> reads \<open>user\<close> and \<open>loadingUser\<close> from the context and
  \<open>window.location.pathname\<close>: the spinner is Wait, \<open>navigate('/auth')\<close> is
  RedirectToAuth, \<open>navigate('/setup-profile')\<close> is RedirectToSetup, and rendering the
  children is Allow.
\<close>

datatype decision = Wait | RedirectToAuth | RedirectToSetup | Allow

definition PrivateRoute :: "bool \<Rightarrow> session option \<Rightarrow> string \<Rightarrow> decision" where
  "PrivateRoute loading usr path =
     (if loading then Wait
      else case usr of
             None \<Rightarrow> RedirectToAuth
           | Some s \<Rightarrow>
               if \<not> profileComplete s \<and> path \<noteq> ''/setup-profile'' then RedirectToSetup
               else Allow)"

text \<open>
  The Session value the callback passes to \<open>setUser\<close> for the record \<open>a\<close> once its
  lookup is fulfilled with \<open>p\<close>: the first branch of \<open>if (profile)\<close> for a profile,
  the second for \<open>null\<close>.
\<close>

definition sessionFor :: "authUser \<Rightarrow> doc option \<Rightarrow> session" where
  "sessionFor a p =
     (case p of
        Some profile \<Rightarrow> \<lparr>uid = uid a, email = email a,
                          displayName = profile ''displayName'', profileComplete = True\<rparr>
      | None \<Rightarrow> \<lparr>uid = uid a, email = email a,
                  displayName = Some (FString (email a)), profileComplete = False\<rparr>)"


text \<open>
  One notification carrying the record \<open>a\<close>, delivered in state \<open>c\<close>, followed by the
  settling of its lookup with what \<open>fetchUserProfile\<close> returns over the read \<open>rd\<close>.
\<close>

definition deliver :: "(jstring \<Rightarrow> doc option reply) \<Rightarrow> authUser \<Rightarrow> ctx \<Rightarrow> ctx" where
  "deliver rd a c =
     run [AuthStateChanged (Some a),
          LookupSettled (length (pending c)) (fetchUserProfile rd (uid a))] c"

section \<open>\<open>src/components/profile/UserProfileSetup.js\<close>: the profile-setup submission\<close>

text \<open>
  \<open>handleSubmit\<close> with the context's \<open>user\<close>, the text of the input field and the value
  of \<open>new Date()\<close>. It leaves the store, the context's user, the component's error
  message and the path navigated to, if any. A failed \<open>setUserProfile\<close> is caught and
  reported; the store is then as before. \<open>accepts\<close> is passed on to \<open>setUserProfile\<close>.
\<close>

record submitted =
  store :: firestore
  userAfter :: "session option"
  errorMsg :: "string option"
  navigatedTo :: "string option"

definition handleSubmit ::
  "(jstring \<Rightarrow> jstring) \<Rightarrow> (jstring \<Rightarrow> doc \<Rightarrow> bool) \<Rightarrow> int \<Rightarrow> firestore \<Rightarrow> session option
     \<Rightarrow> jstring \<Rightarrow> submitted" where
  "handleSubmit toLowerCase accepts now db usr displayNameInput =
     (case usr of
        None \<Rightarrow> \<lparr>store = db, userAfter = usr,
                  errorMsg = Some ''Please provide a valid display name.'', navigatedTo = None\<rparr>
      | Some u \<Rightarrow>
          if trim displayNameInput = []
          then \<lparr>store = db, userAfter = usr,
                 errorMsg = Some ''Please provide a valid display name.'', navigatedTo = None\<rparr>
          else case setUserProfile accepts db (uid u)
                      (Some [''displayName'' \<mapsto> FString (trim displayNameInput),
                             ''lowercaseDisplayName'' \<mapsto> FString (toLowerCase (trim displayNameInput)),
                             ''email'' \<mapsto> FString (email u),
                             ''createdAt'' \<mapsto> FTimestamp now]) of
                 Inl e \<Rightarrow> \<lparr>store = db, userAfter = usr,
                            errorMsg = Some ''Failed to save profile. Please try again.'',
                            navigatedTo = None\<rparr>
               | Inr db' \<Rightarrow>
                   \<lparr>store = db',
                    userAfter = Some (u\<lparr>displayName := Some (FString (trim displayNameInput)),
                                        profileComplete := True\<rparr>),
                    errorMsg = None, navigatedTo = Some ''/dashboard''\<rparr>)"

text \<open>
  The invariant of a profile document: \<open>displayName\<close> is a string and
  \<open>lowercaseDisplayName\<close> is its lowercase form. A store satisfies it when every
  document of \<open>userProfiles\<close> does.
\<close>

definition profileInv :: "(jstring \<Rightarrow> jstring) \<Rightarrow> doc \<Rightarrow> bool" where
  "profileInv toLowerCase d =
     (case d ''displayName'' of
        Some (FString n) \<Rightarrow> d ''lowercaseDisplayName'' = Some (FString (toLowerCase n))
      | _ \<Rightarrow> False)"

definition storeInv :: "(jstring \<Rightarrow> jstring) \<Rightarrow> firestore \<Rightarrow> bool" where
  "storeInv toLowerCase db = list_all (\<lambda>(did, d). profileInv toLowerCase d) (userProfiles db)"

text \<open>A series of submissions, each with its time, user and input, applied to a store.\<close>

definition submissions ::
  "(jstring \<Rightarrow> jstring) \<Rightarrow> (jstring \<Rightarrow> doc \<Rightarrow> bool)
     \<Rightarrow> (int \<times> session option \<times> jstring) list \<Rightarrow> firestore \<Rightarrow> firestore" where
  "submissions toLowerCase accepts calls db =
     foldl (\<lambda>db (now, usr, inp). store (handleSubmit toLowerCase accepts now db usr inp)) db calls"

section \<open>Concrete stores and users for the examples\<close>

text \<open>
  \<open>toLowerCase\<close> on strings whose letters are ASCII, for the examples: the letters A to
  Z are mapped to a to z and every other code point is kept.
\<close>

definition asciiLower :: "jstring \<Rightarrow> jstring" where
  "asciiLower s = map (\<lambda>c. if 65 \<le> c \<and> c \<le> 90 then c + 32 else c) s"

definition named :: "string \<Rightarrow> string \<Rightarrow> jstring \<times> doc" where
  "named i n =
     (js i, [''displayName'' \<mapsto> FString (js n),
             ''lowercaseDisplayName'' \<mapsto> FString (asciiLower (js n))])"

text \<open>The profiles of the spec's search example, and one that does not match.\<close>

definition flDb :: firestore where
  "flDb = \<lparr>userProfiles =
       [named ''p1'' ''Flourish'', named ''p2'' ''flower'', named ''p3'' ''Flame'',
        named ''p4'' ''flagship'', named ''p5'' ''flask'', named ''p6'' ''flux'',
        named ''p7'' ''glow''],
     messages = (\<lambda>_. [])\<rparr>"

text \<open>A profile whose name is \<open>fl\<close> followed by the code point U+F8FF.\<close>

definition sentinelDoc :: doc where
  "sentinelDoc = [''displayName'' \<mapsto> FString (js ''fl'' @ [0xF8FF]),
                  ''lowercaseDisplayName'' \<mapsto> FString (js ''fl'' @ [0xF8FF])]"

definition sentinelDb :: firestore where
  "sentinelDb = \<lparr>userProfiles = [(js ''u1'', sentinelDoc)], messages = (\<lambda>_. [])\<rparr>"

definition userA :: authUser where
  "userA = \<lparr>uid = js ''A'', email = js ''a@x.org''\<rparr>"

definition userB :: authUser where
  "userB = \<lparr>uid = js ''B'', email = js ''b@x.org''\<rparr>"

definition user1 :: authUser where
  "user1 = \<lparr>uid = js ''u1'', email = js ''e''\<rparr>"

text \<open>
  The provider after a signed-out notification followed by a notification carrying
  \<open>userA\<close>, whose lookup is still in flight.
\<close>

definition signedOutThenIn :: ctx where
  "signedOutThenIn =
     run [AuthStateChanged None, AuthStateChanged (Some userA)] (initial ''/dashboard'')"

text \<open>
  A store that takes every write, and one that refuses a uid containing a slash (code
  point 47) as not being a document id.
\<close>

definition accepting :: "jstring \<Rightarrow> doc \<Rightarrow> bool" where
  "accepting u data = True"

definition noSlash :: "jstring \<Rightarrow> doc \<Rightarrow> bool" where
  "noSlash u data = (47 \<notin> set u)"

text \<open>The empty field object \<open>{}\<close>.\<close>

definition noFields :: doc where
  "noFields = Map.empty"

definition emptyDb :: firestore where
  "emptyDb = \<lparr>userProfiles = [], messages = (\<lambda>_. [])\<rparr>"

definition profileX :: firestore where
  "profileX = \<lparr>userProfiles =
       [(js ''u1'', [''displayName'' \<mapsto> FString (js ''X''), ''email'' \<mapsto> FString (js ''e'')])],
     messages = (\<lambda>_. [])\<rparr>"

definition profileY :: firestore where
  "profileY = \<lparr>userProfiles =
       [(js ''u1'', [''displayName'' \<mapsto> FString (js ''Y''), ''email'' \<mapsto> FString (js ''e'')])],
     messages = (\<lambda>_. [])\<rparr>"

text \<open>A chat with three messages, created at times 100, 200 and 300.\<close>

definition chatDb :: firestore where
  "chatDb = \<lparr>userProfiles = [],
     messages = (\<lambda>ch. if ch = js ''c1''
        then [(js ''m1'', [''text'' \<mapsto> FString (js ''hi''), ''createdAt'' \<mapsto> FTimestamp 100]),
              (js ''m2'', [''text'' \<mapsto> FString (js ''yo''), ''createdAt'' \<mapsto> FTimestamp 200]),
              (js ''m3'', [''text'' \<mapsto> FString (js ''ok''), ''createdAt'' \<mapsto> FTimestamp 300])]
        else [])\<rparr>"

text \<open>A signed-in user who has not set up a profile yet.\<close>

definition newcomer :: session where
  "newcomer = \<lparr>uid = js ''u9'', email = js ''f@x.org'',
                displayName = Some (FString (js ''f@x.org'')), profileComplete = False\<rparr>"

section \<open>Properties of the profile operations\<close>

lemma stored_setDoc_merge:
  "getDoc (setDoc_merge c did data) k =
     (if k = did then Some (case getDoc c did of None \<Rightarrow> data | Some old \<Rightarrow> old ++ data)
      else getDoc c k)"
  by (simp add: getDoc_def setDoc_merge_def update_conv')

lemma map_add_twice: "(m ++ n) ++ n = m ++ n"
  by (rule ext) (simp add: map_add_def split: option.splits)

lemma map_add_self: "n ++ n = (n :: 'a \<rightharpoonup> 'b)"
  by (rule ext) (simp add: map_add_def split: option.splits)

lemma setDoc_merge_twice:
  "setDoc_merge (setDoc_merge c did data) did data = setDoc_merge c did data"
  by (simp add: setDoc_merge_def update_conv' map_add_twice map_add_self split: option.splits)

text \<open>
  C7, as stated, at an identity \<open>u1\<close> and the empty field object \<open>{}\<close>, over a store
  that takes the write: the claim has the call fail with InvalidArgument because the
  fields are empty. The guard \<open>!profileData\<close> lets the empty object through, and the
  call succeeds, storing an empty document.
\<close>

theorem setUserProfile_empty_fields_counterexample:
  "dom noFields = {}
   \<and> setUserProfile accepting emptyDb (js ''u1'') (Some noFields)
       = Inr (emptyDb\<lparr>userProfiles := [(js ''u1'', noFields)]\<rparr>)"
  by (simp add: setUserProfile_def setDoc_merge_def emptyDb_def js_def noFields_def
        accepting_def)

text \<open>
  C7, amended: \<open>setUserProfile\<close> fails at its guard, with InvalidArgument, if and only
  if the identity is the empty string or the field object is undefined or null. For a
  non-empty identity and a field object, the empty one included, the guard passes and
  the outcome is the document store's: the call succeeds if and only if the store takes
  the write, and fails with the store's error if and only if the store refuses it (a
  uid that is not a document id, a rejected write).
\<close>

theorem setUserProfile_fails_iff:
  "(setUserProfile accepts db u profileData = Inl InvalidArgument
      \<longleftrightarrow> u = [] \<or> profileData = None)
   \<and> (setUserProfile accepts db u profileData = Inl StoreFailure
        \<longleftrightarrow> u \<noteq> [] \<and> (\<exists>data. profileData = Some data \<and> \<not> accepts u data))
   \<and> ((\<exists>db1. setUserProfile accepts db u profileData = Inr db1)
        \<longleftrightarrow> u \<noteq> [] \<and> (\<exists>data. profileData = Some data \<and> accepts u data))"
  by (cases profileData) (simp_all add: setUserProfile_def)

theorem setUserProfile_fails_iff_witness:
  "setUserProfile noSlash emptyDb [] (Some [''displayName'' \<mapsto> FString (js ''Y'')])
     = Inl InvalidArgument
   \<and> setUserProfile noSlash emptyDb (js ''u1'') None = Inl InvalidArgument
   \<and> \<not> noSlash (js ''a/b'') [''displayName'' \<mapsto> FString (js ''Y'')]
   \<and> setUserProfile noSlash emptyDb (js ''a/b'') (Some [''displayName'' \<mapsto> FString (js ''Y'')])
       = Inl StoreFailure
   \<and> noSlash (js ''u1'') [''displayName'' \<mapsto> FString (js ''Y'')]
   \<and> (\<exists>db1. setUserProfile noSlash emptyDb (js ''u1'')
               (Some [''displayName'' \<mapsto> FString (js ''Y'')]) = Inr db1)"
  using setUserProfile_fails_iff [of noSlash emptyDb "[]" "Some [''displayName'' \<mapsto> FString (js ''Y'')]"]
    setUserProfile_fails_iff [of noSlash emptyDb "js ''u1''" None]
    setUserProfile_fails_iff [of noSlash emptyDb "js ''a/b''" "Some [''displayName'' \<mapsto> FString (js ''Y'')]"]
    setUserProfile_fails_iff [of noSlash emptyDb "js ''u1''" "Some [''displayName'' \<mapsto> FString (js ''Y'')]"]
  by (simp add: js_def noSlash_def)

text \<open>
  C8: for a non-empty identity and a write the store takes, the merge-upsert succeeds,
  and for the store \<open>db1\<close> and the document \<open>d1\<close> it leaves under the identity:
  applying the same fields again changes nothing (idempotent); every supplied field has
  the supplied value; every field not supplied has the value it had before (none when
  there was no document); when no document was stored before, \<open>d1\<close> is exactly the
  supplied fields; and the documents of the other identities are untouched.
\<close>

theorem setUserProfile_merge:
  "u \<noteq> [] \<Longrightarrow> accepts u flds \<Longrightarrow>
   \<exists>db1 d1. setUserProfile accepts db u (Some flds) = Inr db1 \<and> stored db1 u = Some d1
     \<and> setUserProfile accepts db1 u (Some flds) = Inr db1
     \<and> (\<forall>f \<in> dom flds. d1 f = flds f)
     \<and> (\<forall>f. f \<notin> dom flds \<longrightarrow> d1 f = (case stored db u of None \<Rightarrow> None | Some old \<Rightarrow> old f))
     \<and> (stored db u = None \<longrightarrow> d1 = flds)
     \<and> (\<forall>k. k \<noteq> u \<longrightarrow> stored db1 k = stored db k)"
  by (auto simp: setUserProfile_def stored_def stored_setDoc_merge setDoc_merge_twice
        map_add_def domIff split: option.splits)

text \<open>
  The example of the spec: over the profile \<open>{displayName: "X", email: "e"}\<close>, the
  merge-upsert of \<open>{displayName: "Y"}\<close> leaves \<open>{displayName: "Y", email: "e"}\<close>, and
  does so again when repeated.
\<close>

lemma profileX_to_Y:
  "setUserProfile accepting profileX (js ''u1'') (Some [''displayName'' \<mapsto> FString (js ''Y'')])
     = Inr profileY"
  by (simp add: setUserProfile_def setDoc_merge_def profileX_def profileY_def js_def
        accepting_def)
    (rule ext, simp add: map_add_def)

theorem setUserProfile_merge_witness:
  "js ''u1'' \<noteq> [] \<and> accepting (js ''u1'') [''displayName'' \<mapsto> FString (js ''Y'')] \<and>
   setUserProfile accepting profileX (js ''u1'') (Some [''displayName'' \<mapsto> FString (js ''Y'')])
     = Inr profileY \<and>
   setUserProfile accepting profileY (js ''u1'') (Some [''displayName'' \<mapsto> FString (js ''Y'')])
     = Inr profileY"
proof -
  have ne: "js ''u1'' \<noteq> []" by (simp add: js_def)
  have ac: "accepting (js ''u1'') [''displayName'' \<mapsto> FString (js ''Y'')]"
    by (simp add: accepting_def)
  from setUserProfile_merge
         [of "js ''u1''" accepting "[''displayName'' \<mapsto> FString (js ''Y'')]" profileX] ne ac
  show ?thesis by (auto simp: profileX_to_Y)
qed

section \<open>Properties of the session sequencer\<close>

lemma user_resume_Fulfilled: "user (resume c a (Fulfilled p)) = Some (sessionFor a p)"
  by (cases p) (simp_all add: sessionFor_def)

lemma loadingUser_resume_Fulfilled: "\<not> loadingUser (resume c a (Fulfilled p))"
  by (cases p) simp_all

lemma pending_resume: "pending (resume c a r) = pending c"
  by (cases "(c, a, r)" rule: resume.cases) simp_all

lemma run_Nil: "run [] c = c"
  by (simp add: run_def)

lemma run_Cons: "run (e # evs) c = run evs (step c e)"
  by (simp add: run_def)

lemma run_append: "run (evs @ evs') c = run evs' (run evs c)"
  by (simp add: run_def)

lemma settle_without_pending:
  "pending c = [] \<Longrightarrow> run (map (\<lambda>(i, r). LookupSettled i r) ss) c = c"
  by (induction ss) (auto simp: run_Nil run_Cons)

lemma fetchUserProfile_responsive:
  "fetchUserProfile (responsive db) u =
     Fulfilled (if u = [] then None else map_option (with_id u) (stored db u))"
  by (simp add: fetchUserProfile_def responsive_def stored_def split: option.splits)

lemma with_id_displayName: "with_id u P ''displayName'' = P ''displayName''"
  by (simp add: with_id_def map_add_def split: option.splits)

lemma deliver_settles: "deliver rd a c = resume c a (fetchUserProfile rd (uid a))"
  by (simp add: deliver_def run_def)

lemma deliver_responsive:
  "deliver (responsive db) a c
     = resume c a (Fulfilled (if uid a = [] then None
                              else map_option (with_id (uid a)) (stored db (uid a))))"
  by (simp only: deliver_settles fetchUserProfile_responsive)

text \<open>
  C1, as stated, at \<open>userA\<close> then \<open>userB\<close>, neither with a profile, where B's lookup
  settles first and A's after it: the Session left is A's, not B's.
\<close>

theorem late_lookup_overwrites_counterexample:
  "user (run [AuthStateChanged (Some userA), AuthStateChanged (Some userB),
              LookupSettled 1 (Fulfilled None), LookupSettled 0 (Fulfilled None)]
           (initial ''/dashboard''))
   = Some \<lparr>uid = js ''A'', email = js ''a@x.org'',
            displayName = Some (FString (js ''a@x.org'')), profileComplete = False\<rparr>
   \<and> uid userB \<noteq> js ''A''"
  by (simp add: run_def initial_def userA_def userB_def js_def)

text \<open>
  C1, amended: for a notification carrying A followed by one carrying B, both lookups
  fulfilled, the Session after both have settled is the one built from the lookup that
  settled last. When A's lookup settles after B's that is A's Session; when the lookups
  settle in the order of the notifications it is B's.
\<close>

theorem last_settled_lookup_wins:
  "user (run [AuthStateChanged (Some a), AuthStateChanged (Some b),
              LookupSettled (Suc (length (pending c))) (Fulfilled pb),
              LookupSettled (length (pending c)) (Fulfilled pa)] c)
     = Some (sessionFor a pa)
   \<and> user (run [AuthStateChanged (Some a), AuthStateChanged (Some b),
                LookupSettled (length (pending c)) (Fulfilled pa),
                LookupSettled (length (pending c)) (Fulfilled pb)] c)
     = Some (sessionFor b pb)"
  by (simp add: run_def nth_append pending_resume user_resume_Fulfilled)

theorem last_settled_lookup_wins_witness:
  "user (run [AuthStateChanged (Some userA), AuthStateChanged (Some userB),
              LookupSettled 0 (Fulfilled None), LookupSettled 0 (Fulfilled None)]
           (initial ''/dashboard''))
   = Some \<lparr>uid = js ''B'', email = js ''b@x.org'',
            displayName = Some (FString (js ''b@x.org'')), profileComplete = False\<rparr>"
  using last_settled_lookup_wins [of userA userB "initial ''/dashboard''" None None]
  by (simp add: initial_def sessionFor_def userB_def)


text \<open>
  C2, as stated, at the sequence \<open>userA\<close>, signed out, where A's lookup settles (no
  profile) after the signed-out notification: the Session left is A's, not "no session".
\<close>

theorem signed_out_overwritten_counterexample:
  "user (run [AuthStateChanged (Some userA), AuthStateChanged None,
              LookupSettled 0 (Fulfilled None)] (initial ''/dashboard''))
   = Some \<lparr>uid = js ''A'', email = js ''a@x.org'',
            displayName = Some (FString (js ''a@x.org'')), profileComplete = False\<rparr>"
  by (simp add: run_def initial_def userA_def)

text \<open>
  C2, amended: after any events ending in the signed-out notification the user state is
  null and the loading flag false as soon as that notification is handled; and when no
  lookup of an earlier notification is pending at that moment, the user state stays null
  whatever settles afterwards.
\<close>

theorem signed_out_clears_session:
  "user (run (evs @ [AuthStateChanged None]) c) = None
   \<and> \<not> loadingUser (run (evs @ [AuthStateChanged None]) c)
   \<and> (pending (run evs c) = [] \<longrightarrow>
        user (run (evs @ AuthStateChanged None # map (\<lambda>(i, r). LookupSettled i r) ss) c) = None)"
proof -
  let ?d = "step (run evs c) (AuthStateChanged None)"
  have now: "run (evs @ [AuthStateChanged None]) c = ?d"
    by (simp add: run_append run_Cons run_Nil)
  have later: "run (evs @ AuthStateChanged None # map (\<lambda>(i, r). LookupSettled i r) ss) c = ?d"
    if "pending (run evs c) = []"
  proof -
    from that have "pending ?d = []" by simp
    then show ?thesis
      by (simp only: run_append run_Cons settle_without_pending)
  qed
  show ?thesis using now later by simp
qed

theorem signed_out_clears_session_witness:
  "pending (run [AuthStateChanged (Some userA), LookupSettled 0 (Fulfilled None)]
              (initial ''/dashboard'')) = []
   \<and> user (run ([AuthStateChanged (Some userA), LookupSettled 0 (Fulfilled None)]
                 @ AuthStateChanged None # map (\<lambda>(i, r). LookupSettled i r) [(0, Fulfilled None)])
              (initial ''/dashboard'')) = None"
proof -
  have p: "pending (run [AuthStateChanged (Some userA), LookupSettled 0 (Fulfilled None)]
              (initial ''/dashboard'')) = []"
    by (simp add: run_def initial_def)
  from signed_out_clears_session
         [of "[AuthStateChanged (Some userA), LookupSettled 0 (Fulfilled None)]"
             "initial ''/dashboard''" "[(0, Fulfilled None)]"] p
  show ?thesis by blast
qed




text \<open>
  C4: a single notification carrying the record \<open>a\<close>, delivered when no lookup is in
  flight and answered by the store. If a profile \<open>P\<close> is stored for the (non-empty)
  identity, the provider settles in AuthenticatedComplete with the Session's displayName
  that of \<open>P\<close> and profileComplete true; if none is stored, it settles in
  AuthenticatedIncomplete with displayName the record's email and profileComplete
  false. Either way the loading flag is cleared.
\<close>

theorem single_notification_settles:
  assumes "pending c = []"
  shows "(\<forall>P. uid a \<noteq> [] \<and> stored db (uid a) = Some P \<longrightarrow>
            user (deliver (responsive db) a c)
              = Some \<lparr>uid = uid a, email = email a,
                       displayName = P ''displayName'', profileComplete = True\<rparr>
            \<and> state_of (deliver (responsive db) a c) = AuthenticatedComplete)
       \<and> (stored db (uid a) = None \<longrightarrow>
            user (deliver (responsive db) a c)
              = Some \<lparr>uid = uid a, email = email a,
                       displayName = Some (FString (email a)), profileComplete = False\<rparr>
            \<and> state_of (deliver (responsive db) a c) = AuthenticatedIncomplete)
       \<and> \<not> loadingUser (deliver (responsive db) a c)"
proof -
  have d: "deliver (responsive db) a c
      = resume c a (Fulfilled (if uid a = [] then None
                               else map_option (with_id (uid a)) (stored db (uid a))))"
    by (simp add: deliver_responsive)
  have found: "user (deliver (responsive db) a c)
              = Some \<lparr>uid = uid a, email = email a,
                       displayName = P ''displayName'', profileComplete = True\<rparr>
            \<and> state_of (deliver (responsive db) a c) = AuthenticatedComplete"
    if "uid a \<noteq> []" "stored db (uid a) = Some P" for P
    using that assms by (simp add: d state_of_def with_id_displayName)
  have absent: "user (deliver (responsive db) a c)
              = Some \<lparr>uid = uid a, email = email a,
                       displayName = Some (FString (email a)), profileComplete = False\<rparr>
            \<and> state_of (deliver (responsive db) a c) = AuthenticatedIncomplete"
    if "stored db (uid a) = None"
    using that assms by (simp add: d state_of_def)
  have cleared: "\<not> loadingUser (deliver (responsive db) a c)"
    by (simp only: d loadingUser_resume_Fulfilled not_False_eq_True)
  show ?thesis using found absent cleared by blast
qed

theorem single_notification_settles_witness:
  "pending (initial ''/dashboard'') = [] \<and> uid user1 \<noteq> []
   \<and> stored profileX (uid user1)
       = Some [''displayName'' \<mapsto> FString (js ''X''), ''email'' \<mapsto> FString (js ''e'')]
   \<and> user (deliver (responsive profileX) user1 (initial ''/dashboard''))
       = Some \<lparr>uid = js ''u1'', email = js ''e'',
                displayName = Some (FString (js ''X'')), profileComplete = True\<rparr>
   \<and> state_of (deliver (responsive profileX) user1 (initial ''/dashboard'')) = AuthenticatedComplete
   \<and> stored emptyDb (uid user1) = None
   \<and> user (deliver (responsive emptyDb) user1 (initial ''/dashboard''))
       = Some \<lparr>uid = js ''u1'', email = js ''e'',
                displayName = Some (FString (js ''e'')), profileComplete = False\<rparr>
   \<and> state_of (deliver (responsive emptyDb) user1 (initial ''/dashboard'')) = AuthenticatedIncomplete"
proof -
  have p: "pending (initial ''/dashboard'') = []" by (simp add: initial_def)
  have ne: "uid user1 \<noteq> []" by (simp add: user1_def js_def)
  have sx: "stored profileX (uid user1)
       = Some [''displayName'' \<mapsto> FString (js ''X''), ''email'' \<mapsto> FString (js ''e'')]"
    by (simp add: stored_def getDoc_def profileX_def user1_def)
  have se: "stored emptyDb (uid user1) = None"
    by (simp add: stored_def getDoc_def emptyDb_def)
  from single_notification_settles [OF p, of user1 profileX] ne sx
  have x: "user (deliver (responsive profileX) user1 (initial ''/dashboard''))
       = Some \<lparr>uid = js ''u1'', email = js ''e'',
                displayName = Some (FString (js ''X'')), profileComplete = True\<rparr>
     \<and> state_of (deliver (responsive profileX) user1 (initial ''/dashboard'')) = AuthenticatedComplete"
    by (simp add: user1_def)
  from single_notification_settles [OF p, of user1 emptyDb] se
  have e: "user (deliver (responsive emptyDb) user1 (initial ''/dashboard''))
       = Some \<lparr>uid = js ''u1'', email = js ''e'',
                displayName = Some (FString (js ''e'')), profileComplete = False\<rparr>
     \<and> state_of (deliver (responsive emptyDb) user1 (initial ''/dashboard'')) = AuthenticatedIncomplete"
    by (simp add: user1_def)
  show ?thesis using p ne sx se x e by blast
qed

section \<open>Properties of the route gate\<close>

text \<open>
  C5, as stated, at the provider after a signed-out notification and then a
  notification carrying \<open>userA\<close> whose lookup is in flight: the state is
  AuthenticatedPending, yet the gate does not wait but redirects to the auth page, the
  one-shot loading flag having been cleared by the first notification.
\<close>

theorem pending_not_waiting_counterexample:
  "state_of signedOutThenIn = AuthenticatedPending
   \<and> PrivateRoute (loadingUser signedOutThenIn) (user signedOutThenIn) ''/dashboard''
       = RedirectToAuth"
  by (simp add: signedOutThenIn_def run_def initial_def state_of_def PrivateRoute_def)

text \<open>
  C5, amended: the gate is a function of the loading flag, the user value and the path.
  Unknown maps to Wait, and so does AuthenticatedPending while the loading flag is still
  set; Anonymous maps to RedirectToAuth; AuthenticatedIncomplete maps to RedirectToSetup
  off the setup page and to Allow on it; AuthenticatedComplete maps to Allow. With a
  lookup in flight after the loading flag has been cleared, the decision is the one for
  the user value last set: RedirectToAuth for none, otherwise as for that user's
  \<open>profileComplete\<close>.
\<close>

theorem PrivateRoute_table:
  "(state_of c = Unknown \<longrightarrow> PrivateRoute (loadingUser c) (user c) path = Wait)
   \<and> (state_of c = AuthenticatedPending \<and> loadingUser c \<longrightarrow>
        PrivateRoute (loadingUser c) (user c) path = Wait)
   \<and> (state_of c = Anonymous \<longrightarrow> PrivateRoute (loadingUser c) (user c) path = RedirectToAuth)
   \<and> (state_of c = AuthenticatedIncomplete \<and> path \<noteq> ''/setup-profile'' \<longrightarrow>
        PrivateRoute (loadingUser c) (user c) path = RedirectToSetup)
   \<and> (state_of c = AuthenticatedIncomplete \<and> path = ''/setup-profile'' \<longrightarrow>
        PrivateRoute (loadingUser c) (user c) path = Allow)
   \<and> (state_of c = AuthenticatedComplete \<longrightarrow> PrivateRoute (loadingUser c) (user c) path = Allow)
   \<and> (state_of c = AuthenticatedPending \<and> \<not> loadingUser c \<longrightarrow>
        PrivateRoute (loadingUser c) (user c) path =
          (case user c of
             None \<Rightarrow> RedirectToAuth
           | Some s \<Rightarrow> if profileComplete s \<or> path = ''/setup-profile'' then Allow
                       else RedirectToSetup))"
  by (auto simp: state_of_def PrivateRoute_def split: if_splits option.splits)

lemma state_of_examples:
  "state_of (initial ''/dashboard'') = Unknown"
  "state_of (step (initial ''/dashboard'') (AuthStateChanged (Some userA))) = AuthenticatedPending"
  "loadingUser (step (initial ''/dashboard'') (AuthStateChanged (Some userA)))"
  "state_of (step (initial ''/dashboard'') (AuthStateChanged None)) = Anonymous"
  "state_of (deliver (responsive emptyDb) user1 (initial ''/dashboard'')) = AuthenticatedIncomplete"
  "state_of (deliver (responsive profileX) user1 (initial ''/dashboard'')) = AuthenticatedComplete"
  by (simp_all add: state_of_def initial_def deliver_responsive stored_def getDoc_def
        emptyDb_def profileX_def user1_def js_def)

theorem PrivateRoute_table_witness:
  "PrivateRoute (loadingUser (initial ''/dashboard'')) (user (initial ''/dashboard'')) ''/dashboard''
     = Wait
   \<and> PrivateRoute (loadingUser (step (initial ''/dashboard'') (AuthStateChanged (Some userA))))
        (user (step (initial ''/dashboard'') (AuthStateChanged (Some userA)))) ''/dashboard''
     = Wait
   \<and> PrivateRoute (loadingUser (step (initial ''/dashboard'') (AuthStateChanged None)))
        (user (step (initial ''/dashboard'') (AuthStateChanged None))) ''/dashboard''
     = RedirectToAuth
   \<and> PrivateRoute (loadingUser (deliver (responsive emptyDb) user1 (initial ''/dashboard'')))
        (user (deliver (responsive emptyDb) user1 (initial ''/dashboard''))) ''/dashboard''
     = RedirectToSetup
   \<and> PrivateRoute (loadingUser (deliver (responsive emptyDb) user1 (initial ''/dashboard'')))
        (user (deliver (responsive emptyDb) user1 (initial ''/dashboard''))) ''/setup-profile''
     = Allow
   \<and> PrivateRoute (loadingUser (deliver (responsive profileX) user1 (initial ''/dashboard'')))
        (user (deliver (responsive profileX) user1 (initial ''/dashboard''))) ''/setup-profile''
     = Allow"
  using PrivateRoute_table [of "initial ''/dashboard''" "''/dashboard''"]
    PrivateRoute_table [of "step (initial ''/dashboard'') (AuthStateChanged (Some userA))" "''/dashboard''"]
    PrivateRoute_table [of "step (initial ''/dashboard'') (AuthStateChanged None)" "''/dashboard''"]
    PrivateRoute_table [of "deliver (responsive emptyDb) user1 (initial ''/dashboard'')" "''/dashboard''"]
    PrivateRoute_table [of "deliver (responsive emptyDb) user1 (initial ''/dashboard'')" "''/setup-profile''"]
    PrivateRoute_table [of "deliver (responsive profileX) user1 (initial ''/dashboard'')" "''/setup-profile''"]
  by (simp only: state_of_examples seq_state.simps simp_thms list.simps char.inject)


section \<open>Properties of the search and of the message count\<close>

lemma compares_FString:
  "compares GreaterEq v (FString b) \<longleftrightarrow> (\<exists>n. v = FString n \<and> b \<le> n)"
  "compares LessEq v (FString b) \<longleftrightarrow> (\<exists>n. v = FString n \<and> n \<le> b)"
  by (cases v; auto simp: compares_def)+

lemma compares_FTimestamp:
  "compares Greater v (FTimestamp t) \<longleftrightarrow> (\<exists>t'. v = FTimestamp t' \<and> t < t')"
  by (cases v; auto simp: compares_def)

lemma satisfies_range:
  "list_all (satisfies d)
     [Where ''lowercaseDisplayName'' GreaterEq (FString lo),
      Where ''lowercaseDisplayName'' LessEq (FString (lo @ [0xF8FF])), Limit 5]
   \<longleftrightarrow> inClosedRange lo d"
  by (auto simp: inClosedRange_def compares_FString split: option.splits fval.splits)

lemma getDocs_search:
  "getDocs c
     [Where ''lowercaseDisplayName'' GreaterEq (FString lo),
      Where ''lowercaseDisplayName'' LessEq (FString (lo @ [0xF8FF])), Limit 5]
   = take 5 (sort_key searchKey (filter (\<lambda>(did, d). inClosedRange lo d) c))"
  unfolding getDocs_def satisfies_range
  by (simp add: order_field_def searchKey_def)

lemma lowercaseName_with_id: "lowercaseName (with_id did d) = lowercaseName d"
  by (simp add: lowercaseName_def with_id_def map_add_def split: option.splits)

lemma inClosedRange_with_id: "inClosedRange lo (with_id did d) = inClosedRange lo d"
  by (simp add: inClosedRange_def with_id_def map_add_def split: option.splits)

lemma searchKey_le:
  "inClosedRange lo (snd x) \<Longrightarrow> inClosedRange lo (snd y) \<Longrightarrow> searchKey x \<le> searchKey y \<Longrightarrow>
   lowercaseName (snd x) \<le> lowercaseName (snd y)"
  by (cases x; cases y)
     (auto simp: searchKey_def sort_value_def inClosedRange_def lowercaseName_def
        split: option.splits fval.splits)

lemma sorted_names:
  "sorted (map searchKey xs) \<Longrightarrow> \<forall>x \<in> set xs. inClosedRange lo (snd x) \<Longrightarrow>
   sorted (map (\<lambda>x. lowercaseName (snd x)) xs)"
  by (induction xs) (auto intro: searchKey_le)

lemma sorted_take_drop:
  "sorted (map k xs) \<Longrightarrow> x \<in> set (take n xs) \<Longrightarrow> y \<in> set (drop n xs) \<Longrightarrow> k x \<le> k y"
proof -
  assume s: "sorted (map k xs)" and x: "x \<in> set (take n xs)" and y: "y \<in> set (drop n xs)"
  have "sorted (map k (take n xs) @ map k (drop n xs))"
    using s by (simp flip: map_append)
  then show ?thesis using x y by (auto simp: sorted_append)
qed


lemma search_result:
  assumes "queryText \<noteq> []" "trim queryText \<noteq> []"
  shows "searchUserProfiles L db queryText
     = map (\<lambda>(did, d). with_id did d)
         (take 5 (sort_key searchKey
            (filter (\<lambda>(did, d). inClosedRange (L queryText) d) (userProfiles db))))"
  using assms by (simp add: searchUserProfiles_def getDocs_search)

text \<open>
  C6, as stated, at the prefix \<open>fl\<close> over a store whose one profile is named \<open>fl\<close>
  followed by U+F8FF: the profile is returned, although its name is not below the upper
  bound, so it lies outside the half-open range.
\<close>

theorem sentinel_name_counterexample:
  "searchUserProfiles asciiLower sentinelDb (js ''fl'') = [with_id (js ''u1'') sentinelDoc]
   \<and> lowercaseName sentinelDoc = asciiLower (js ''fl'') @ [0xF8FF]
   \<and> \<not> lowercaseName sentinelDoc < asciiLower (js ''fl'') @ [0xF8FF]"
  by (simp add: searchUserProfiles_def sentinelDb_def sentinelDoc_def js_def asciiLower_def
        trim_def isWhiteSpace_def getDocs_def compares_def lowercaseName_def)

lemma search_sound_complete:
  assumes "queryText \<noteq> []" "trim queryText \<noteq> []"
  shows "length (searchUserProfiles L db queryText) \<le> 5
    \<and> sorted (map lowercaseName (searchUserProfiles L db queryText))
    \<and> (\<forall>r \<in> set (searchUserProfiles L db queryText).
          inClosedRange (L queryText) r
          \<and> (\<exists>(did, d) \<in> set (userProfiles db). r = with_id did d))
    \<and> (\<forall>(did, d) \<in> set (userProfiles db).
          inClosedRange (L queryText) d \<longrightarrow>
            with_id did d \<in> set (searchUserProfiles L db queryText)
            \<or> (length (searchUserProfiles L db queryText) = 5
                \<and> (\<forall>r \<in> set (searchUserProfiles L db queryText).
                      lowercaseName r \<le> lowercaseName d)))"
proof -
  define lo where "lo = L queryText"
  define S where "S = sort_key searchKey (filter (\<lambda>(did, d). inClosedRange lo d) (userProfiles db))"
  define rs where "rs = searchUserProfiles L db queryText"
  have rs: "rs = map (\<lambda>(did, d). with_id did d) (take 5 S)"
    unfolding rs_def S_def lo_def by (rule search_result [OF assms])
  have setS: "set S = {x \<in> set (userProfiles db). inClosedRange lo (snd x)}"
    by (auto simp: S_def)
  have sortedS: "sorted (map searchKey S)"
    by (simp add: S_def)
  have inS: "inClosedRange lo (snd x)" if "x \<in> set (take 5 S)" for x
    using that setS by (auto dest: in_set_takeD)
  have len: "length rs \<le> 5" by (simp add: rs)
  have names: "map lowercaseName rs = map (\<lambda>x. lowercaseName (snd x)) (take 5 S)"
    by (simp add: rs lowercaseName_with_id case_prod_beta)
  have "sorted (map searchKey (take 5 S))"
    using sortedS by (simp add: take_map [symmetric])
  then have srt: "sorted (map lowercaseName rs)"
    unfolding names using inS by (intro sorted_names [where lo = lo]) auto
  have sound: "inClosedRange lo r \<and> (\<exists>(did, d) \<in> set (userProfiles db). r = with_id did d)"
    if "r \<in> set rs" for r
  proof -
    from that obtain did d where x: "(did, d) \<in> set (take 5 S)" and r: "r = with_id did d"
      by (auto simp: rs)
    from x have "(did, d) \<in> set S" by (rule in_set_takeD)
    with setS have "(did, d) \<in> set (userProfiles db)" "inClosedRange lo d" by auto
    then show ?thesis using r by (auto simp: inClosedRange_with_id)
  qed
  have complete: "with_id did d \<in> set rs
      \<or> (length rs = 5 \<and> (\<forall>r \<in> set rs. lowercaseName r \<le> lowercaseName d))"
    if mem: "(did, d) \<in> set (userProfiles db)" and rng: "inClosedRange lo d" for did d
  proof (cases "(did, d) \<in> set (take 5 S)")
    case True
    then show ?thesis by (force simp: rs)
  next
    case False
    have "(did, d) \<in> set S" using mem rng setS by auto
    moreover have "set S = set (take 5 S) \<union> set (drop 5 S)"
      by (metis append_take_drop_id set_append)
    ultimately have dr: "(did, d) \<in> set (drop 5 S)" using False by blast
    then have "5 < length S" by (cases "5 < length S") auto
    then have l5: "length rs = 5" by (simp add: rs)
    have "lowercaseName r \<le> lowercaseName d" if "r \<in> set rs" for r
    proof -
      from that obtain x where x: "x \<in> set (take 5 S)" and r: "r = with_id (fst x) (snd x)"
        by (auto simp: rs)
      have "searchKey x \<le> searchKey (did, d)"
        using sortedS x dr by (rule sorted_take_drop)
      with inS [OF x] rng have "lowercaseName (snd x) \<le> lowercaseName (snd (did, d))"
        by (intro searchKey_le [where lo = lo]) auto
      then show ?thesis by (simp add: r lowercaseName_with_id)
    qed
    with l5 show ?thesis by blast
  qed
  show ?thesis
    using len srt sound complete unfolding rs_def lo_def by blast
qed


lemma searchKey_le_names:
  assumes "sorted (map searchKey S)" "\<forall>x \<in> set S. inClosedRange lo (snd x)"
    "x \<in> set (take n S)" "y \<in> set (drop n S)"
  shows "lowercaseName (snd x) \<le> lowercaseName (snd y)"
proof -
  have "searchKey x \<le> searchKey y" using assms(1,3,4) by (rule sorted_take_drop)
  moreover have "x \<in> set S" "y \<in> set S"
    using assms(3,4) by (auto dest: in_set_takeD in_set_dropD)
  ultimately show ?thesis using assms(2) by (intro searchKey_le [where lo = lo]) auto
qed

lemma search_exact:
  assumes "queryText \<noteq> []" "trim queryText \<noteq> []"
  shows "searchUserProfiles L db queryText
      = map (\<lambda>(did, d). with_id did d)
          (take 5 (sort_key searchKey
             (filter (\<lambda>(did, d). inClosedRange (L queryText) d) (userProfiles db))))
    \<and> length (searchUserProfiles L db queryText)
        = min 5 (length (filter (\<lambda>(did, d). inClosedRange (L queryText) d) (userProfiles db)))
    \<and> sorted (map lowercaseName (searchUserProfiles L db queryText))
    \<and> (\<exists>rest.
          mset (map (\<lambda>(did, d). with_id did d)
                  (filter (\<lambda>(did, d). inClosedRange (L queryText) d) (userProfiles db)))
            = mset (searchUserProfiles L db queryText) + mset rest
          \<and> (\<forall>r \<in> set (searchUserProfiles L db queryText). \<forall>x \<in> set rest.
                lowercaseName r \<le> lowercaseName x))"
proof -
  define lo where "lo = L queryText"
  define M where "M = filter (\<lambda>(did, d). inClosedRange lo d) (userProfiles db)"
  define S where "S = sort_key searchKey M"
  define w where "w = (\<lambda>(did, d). with_id did d :: doc)"
  define rs where "rs = searchUserProfiles L db queryText"
  have rs: "rs = map w (take 5 S)"
    unfolding rs_def S_def M_def lo_def w_def by (rule search_result [OF assms])
  have sortedS: "sorted (map searchKey S)" by (simp add: S_def)
  have inS: "\<forall>x \<in> set S. inClosedRange lo (snd x)" by (auto simp: S_def M_def)
  have len: "length rs = min 5 (length M)" by (simp add: rs S_def min.commute)
  have wname: "lowercaseName (w x) = lowercaseName (snd x)" for x
    by (simp add: w_def lowercaseName_with_id case_prod_beta)
  have "sorted (map searchKey (take 5 S))"
    using sortedS by (simp add: take_map [symmetric])
  moreover have "\<forall>x \<in> set (take 5 S). inClosedRange lo (snd x)"
    using inS by (auto dest: in_set_takeD)
  ultimately have "sorted (map (\<lambda>x. lowercaseName (snd x)) (take 5 S))"
    by (rule sorted_names)
  then have srt: "sorted (map lowercaseName rs)"
    by (simp add: rs wname comp_def)
  have "mset (map w M) = mset (map w S)" by (simp add: S_def)
  also have "\<dots> = mset (map w (take 5 S @ drop 5 S))" by simp
  also have "\<dots> = mset rs + mset (map w (drop 5 S))" by (simp only: rs map_append mset_append)
  finally have split: "mset (map w M) = mset rs + mset (map w (drop 5 S))" .
  have ord: "\<forall>r \<in> set rs. \<forall>x \<in> set (map w (drop 5 S)). lowercaseName r \<le> lowercaseName x"
    using searchKey_le_names [OF sortedS inS] by (auto simp: rs wname)
  have rest: "\<exists>rest. mset (map w M) = mset rs + mset rest
      \<and> (\<forall>r \<in> set rs. \<forall>x \<in> set rest. lowercaseName r \<le> lowercaseName x)"
    using split ord by blast
  show ?thesis
    using rs len srt rest unfolding rs_def S_def M_def lo_def w_def by blast
qed

text \<open>
  C6, amended: for every non-empty, non-whitespace \<open>queryText\<close> the result is exactly
  the profiles of the store whose \<open>lowercaseDisplayName\<close> lies in the closed range from
  the lower-cased query to the lower-cased query followed by U+F8FF, both bounds
  included, in ascending order of \<open>lowercaseDisplayName\<close> (profiles with equal names by
  document id), cut to the first 5. So the result has as many profiles as match, or 5 if
  more match; it is sorted by name; the matching profiles are the result together with
  left-out ones, none of which has a smaller name than any profile of the result (the
  result is the 5 smallest matches); every profile of the result is a stored one in the
  range; and a matching profile is missing from the result only when the result has 5
  profiles.
\<close>

theorem searchUserProfiles_closed_range:
  assumes "queryText \<noteq> []" "trim queryText \<noteq> []"
  shows "searchUserProfiles L db queryText
      = map (\<lambda>(did, d). with_id did d)
          (take 5 (sort_key searchKey
             (filter (\<lambda>(did, d). inClosedRange (L queryText) d) (userProfiles db))))
    \<and> length (searchUserProfiles L db queryText)
        = min 5 (length (filter (\<lambda>(did, d). inClosedRange (L queryText) d) (userProfiles db)))
    \<and> sorted (map lowercaseName (searchUserProfiles L db queryText))
    \<and> (\<exists>rest.
          mset (map (\<lambda>(did, d). with_id did d)
                  (filter (\<lambda>(did, d). inClosedRange (L queryText) d) (userProfiles db)))
            = mset (searchUserProfiles L db queryText) + mset rest
          \<and> (\<forall>r \<in> set (searchUserProfiles L db queryText). \<forall>x \<in> set rest.
                lowercaseName r \<le> lowercaseName x))
    \<and> (\<forall>r \<in> set (searchUserProfiles L db queryText).
          inClosedRange (L queryText) r
          \<and> (\<exists>(did, d) \<in> set (userProfiles db). r = with_id did d))
    \<and> (\<forall>(did, d) \<in> set (userProfiles db).
          inClosedRange (L queryText) d \<longrightarrow>
            with_id did d \<in> set (searchUserProfiles L db queryText)
            \<or> (length (searchUserProfiles L db queryText) = 5
                \<and> (\<forall>r \<in> set (searchUserProfiles L db queryText).
                      lowercaseName r \<le> lowercaseName d)))"
proof -
  note a = search_exact [OF assms, of L db]
  note b = search_sound_complete [OF assms, of L db]
  from a have a1: "searchUserProfiles L db queryText
      = map (\<lambda>(did, d). with_id did d)
          (take 5 (sort_key searchKey
             (filter (\<lambda>(did, d). inClosedRange (L queryText) d) (userProfiles db))))"
    by (rule conjunct1)
  from a have a2: "length (searchUserProfiles L db queryText)
        = min 5 (length (filter (\<lambda>(did, d). inClosedRange (L queryText) d) (userProfiles db)))"
    by (rule conjunct2 [THEN conjunct1])
  from a have a3: "sorted (map lowercaseName (searchUserProfiles L db queryText))"
    by (rule conjunct2 [THEN conjunct2, THEN conjunct1])
  from a have a4: "\<exists>rest.
          mset (map (\<lambda>(did, d). with_id did d)
                  (filter (\<lambda>(did, d). inClosedRange (L queryText) d) (userProfiles db)))
            = mset (searchUserProfiles L db queryText) + mset rest
          \<and> (\<forall>r \<in> set (searchUserProfiles L db queryText). \<forall>x \<in> set rest.
                lowercaseName r \<le> lowercaseName x)"
    by (rule conjunct2 [THEN conjunct2, THEN conjunct2])
  from b have b3: "\<forall>r \<in> set (searchUserProfiles L db queryText).
          inClosedRange (L queryText) r
          \<and> (\<exists>(did, d) \<in> set (userProfiles db). r = with_id did d)"
    by (rule conjunct2 [THEN conjunct2, THEN conjunct1])
  from b have b4: "\<forall>(did, d) \<in> set (userProfiles db).
          inClosedRange (L queryText) d \<longrightarrow>
            with_id did d \<in> set (searchUserProfiles L db queryText)
            \<or> (length (searchUserProfiles L db queryText) = 5
                \<and> (\<forall>r \<in> set (searchUserProfiles L db queryText).
                      lowercaseName r \<le> lowercaseName d))"
    by (rule conjunct2 [THEN conjunct2, THEN conjunct2])
  show ?thesis
    by (intro conjI a1 a2 a3 a4 b3 b4)
qed

theorem searchUserProfiles_closed_range_witness:
  "js ''FL'' \<noteq> [] \<and> trim (js ''FL'') \<noteq> []
   \<and> map lowercaseName (searchUserProfiles asciiLower flDb (js ''FL''))
       = map js [''flagship'', ''flame'', ''flask'', ''flourish'', ''flower'']
   \<and> named ''p6'' ''flux'' \<in> set (userProfiles flDb)
   \<and> inClosedRange (asciiLower (js ''FL'')) (snd (named ''p6'' ''flux''))
   \<and> length (searchUserProfiles asciiLower flDb (js ''FL'')) = 5
   \<and> sorted (map lowercaseName (searchUserProfiles asciiLower flDb (js ''FL'')))"
proof -
  have h1: "js ''FL'' \<noteq> []" by (simp add: js_def)
  have h2: "trim (js ''FL'') \<noteq> []" by (simp add: js_def trim_def isWhiteSpace_def)
  have ev: "map lowercaseName (searchUserProfiles asciiLower flDb (js ''FL''))
       = map js [''flagship'', ''flame'', ''flask'', ''flourish'', ''flower'']"
    by (simp add: searchUserProfiles_def flDb_def named_def js_def asciiLower_def trim_def
          isWhiteSpace_def getDocs_def compares_def order_field_def sort_value_def with_id_def
          lowercaseName_def)
  have m: "named ''p6'' ''flux'' \<in> set (userProfiles flDb)" by (simp add: flDb_def)
  have r: "inClosedRange (asciiLower (js ''FL'')) (snd (named ''p6'' ''flux''))"
    by (simp add: inClosedRange_def named_def js_def asciiLower_def)
  have l: "length (searchUserProfiles asciiLower flDb (js ''FL'')) = 5"
    using arg_cong [OF ev, of length] by simp
  from searchUserProfiles_closed_range [OF h1 h2, of asciiLower flDb]
  have "sorted (map lowercaseName (searchUserProfiles asciiLower flDb (js ''FL'')))" by blast
  then show ?thesis using h1 h2 ev m r l by blast
qed

lemma satisfies_createdAfter:
  "list_all (satisfies d) [OrderBy ''createdAt'', Where ''createdAt'' Greater (FTimestamp t)]
   \<longleftrightarrow> createdAfter t d"
  by (auto simp: createdAfter_def compares_FTimestamp split: option.splits fval.splits)

text \<open>
  C10: without a timestamp the count is the number of messages of the chat; with a
  timestamp it is the number of messages whose \<open>createdAt\<close> is a time strictly greater
  than it.
\<close>

theorem fetchChatMessagesCount_counts:
  "fetchChatMessagesCount db chatId None = length (messages db chatId)
   \<and> fetchChatMessagesCount db chatId (Some t)
       = length (filter (\<lambda>(mid, m). createdAfter t m) (messages db chatId))"
proof -
  have unread: "length (getDocs c [OrderBy ''createdAt'', Where ''createdAt'' Greater (FTimestamp t)])
      = length (filter (\<lambda>(mid, m). createdAfter t m) c)" for c
    unfolding getDocs_def satisfies_createdAfter by simp
  have total: "length (getDocs c []) = length c" for c
    by (simp add: getDocs_def)
  show ?thesis
    by (simp add: fetchChatMessagesCount_def unread total)
qed

theorem fetchChatMessagesCount_counts_witness:
  "fetchChatMessagesCount chatDb (js ''c1'') None = 3
   \<and> fetchChatMessagesCount chatDb (js ''c1'') (Some 100) = 2
   \<and> fetchChatMessagesCount chatDb (js ''c1'') (Some 300) = 0"
  using fetchChatMessagesCount_counts [of chatDb "js ''c1''" 100]
    fetchChatMessagesCount_counts [of chatDb "js ''c1''" 300]
  by (simp add: chatDb_def createdAfter_def)

section \<open>Properties of the profile-setup submission\<close>

lemma list_all_update:
  "list_all P c \<Longrightarrow> P (k, v) \<Longrightarrow> list_all P (AList.update k v c)"
  by (induction c) auto

lemma storeInv_setUserProfile:
  assumes "storeInv L db" "setUserProfile accepts db u (Some data) = Inr db'"
    "data ''displayName'' = Some (FString n)"
    "data ''lowercaseDisplayName'' = Some (FString (L n))"
  shows "storeInv L db'"
proof -
  from assms(2) have db': "db' = db\<lparr>userProfiles := setDoc_merge (userProfiles db) u data\<rparr>"
    by (auto simp: setUserProfile_def split: if_splits)
  have "profileInv L (case map_of (userProfiles db) u of None \<Rightarrow> data | Some old \<Rightarrow> old ++ data)"
    using assms(3,4) by (simp add: profileInv_def map_add_def split: option.splits)
  with assms(1) show ?thesis
    by (simp add: db' storeInv_def setDoc_merge_def list_all_update)
qed

lemma storeInv_handleSubmit:
  "storeInv L db \<Longrightarrow> storeInv L (store (handleSubmit L accepts now db usr inp))"
  by (auto simp: handleSubmit_def split: option.splits sum.splits
        intro: storeInv_setUserProfile [where n = "trim inp"])

lemma storeInv_submissions:
  "storeInv L db \<Longrightarrow> storeInv L (submissions L accepts calls db)"
  unfolding submissions_def
  by (induction calls arbitrary: db) (auto simp: storeInv_handleSubmit)

lemma handleSubmit_writes:
  assumes "errorMsg (handleSubmit L accepts now db usr inp) = None"
  shows "\<exists>u d. usr = Some u
           \<and> stored (store (handleSubmit L accepts now db usr inp)) (uid u) = Some d
           \<and> d ''displayName'' = Some (FString (trim inp))
           \<and> d ''lowercaseDisplayName'' = Some (FString (L (trim inp)))"
  using assms
  by (auto simp: handleSubmit_def setUserProfile_def stored_def stored_setDoc_merge map_add_def
        split: option.splits sum.splits if_splits)

text \<open>
  C9: a submission keeps the invariant of the store (every profile document has a
  string \<open>displayName\<close> and \<open>lowercaseDisplayName\<close> equal to its lowercase form),
  whether the store takes the write or not; a submission that succeeds leaves, under the
  user's identity, a document whose \<open>displayName\<close> is the trimmed input and whose
  \<open>lowercaseDisplayName\<close> is the lowercase form of the same; hence every store built
  from the empty one by submissions satisfies the invariant.
\<close>

theorem handleSubmit_keeps_lowercase:
  "(storeInv L db \<longrightarrow> storeInv L (store (handleSubmit L accepts now db usr inp)))
   \<and> (errorMsg (handleSubmit L accepts now db usr inp) = None \<longrightarrow>
        (\<exists>u d. usr = Some u
           \<and> stored (store (handleSubmit L accepts now db usr inp)) (uid u) = Some d
           \<and> d ''displayName'' = Some (FString (trim inp))
           \<and> d ''lowercaseDisplayName'' = Some (FString (L (trim inp)))))
   \<and> storeInv L (submissions L accepts calls emptyDb)"
proof -
  have "storeInv L emptyDb" by (simp add: storeInv_def emptyDb_def)
  then have "storeInv L (submissions L accepts calls emptyDb)" by (rule storeInv_submissions)
  then show ?thesis
    using storeInv_handleSubmit [of L db accepts now usr inp]
      handleSubmit_writes [of L accepts now db usr inp]
    by blast
qed

theorem handleSubmit_keeps_lowercase_witness:
  "storeInv asciiLower flDb
   \<and> errorMsg (handleSubmit asciiLower accepting 1000 flDb (Some newcomer) (js '' Flora '')) = None
   \<and> storeInv asciiLower
        (store (handleSubmit asciiLower accepting 1000 flDb (Some newcomer) (js '' Flora '')))
   \<and> (\<exists>d. stored (store (handleSubmit asciiLower accepting 1000 flDb (Some newcomer)
                           (js '' Flora ''))) (js ''u9'') = Some d
         \<and> d ''displayName'' = Some (FString (js ''Flora''))
         \<and> d ''lowercaseDisplayName'' = Some (FString (js ''flora'')))"
proof -
  have inv: "storeInv asciiLower flDb"
    by (simp add: storeInv_def flDb_def named_def profileInv_def)
  have tr: "trim (js '' Flora '') = js ''Flora''"
    by (simp add: trim_def js_def isWhiteSpace_def)
  have lo: "asciiLower (js ''Flora'') = js ''flora''"
    by (simp add: asciiLower_def js_def)
  have ne: "trim (js '' Flora '') \<noteq> []" "js ''u9'' \<noteq> []"
    unfolding tr by (simp_all add: js_def)
  have ok: "errorMsg (handleSubmit asciiLower accepting 1000 flDb (Some newcomer) (js '' Flora ''))
      = None"
    by (simp add: handleSubmit_def ne setUserProfile_def newcomer_def accepting_def)
  from handleSubmit_keeps_lowercase
         [of asciiLower flDb accepting 1000 "Some newcomer" "js '' Flora ''"]
    inv ok
  show ?thesis by (auto simp: tr lo newcomer_def)
qed

end
